theory Spec2Isabelle
  imports Main "HOL-Library.Word" "HOL-Library.AList"
begin

section \<open>Go values used by the docker-compose manager\<close>

text \<open>
  The manager (\<^verbatim>\<open>cmd/manager/dockerComposeManager.go\<close>) keeps its state outside the
  process: the file \<^verbatim>\<open>docker-compose.yml\<close>, the container engine and the programs on
  the search path. Every function below takes the part of that state it reads as an
  argument and returns what it writes.

  \<^item> \<^verbatim>\<open>log.Fatalf\<close> ends the process, and so does an unrecovered panic: a function that
    can reach one returns \<open>Inl Fatal\<close> or \<open>Inl Panic\<close>.
  \<^item> A Go \<^verbatim>\<open>error\<close> result is a \<open>go_error option\<close> (\<open>None\<close> is \<^verbatim>\<open>nil\<close>).
  \<^item> A \<^verbatim>\<open>map[string]interface{}\<close> is an association list. Go does not fix the order
    in which \<^verbatim>\<open>range\<close> visits a map, so the order of the list stands for whatever
    order the run takes and no result below depends on it.
\<close>

type_synonym byte = "8 word"

datatype failure = Fatal | Panic

datatype go_error = ConfigFileNotFoundError | ConfigParseError | WriteError | ExitError | EngineError
  | EOF

datatype yaml = YNull | YStr string | YInt int | YSeq "yaml list"
  | YMap "(string \<times> yaml) list"

type_synonym gomap = "(string \<times> yaml) list"

text \<open>\<^verbatim>\<open>strings.ToLower\<close> on the ASCII letters; every other byte is left as it is.\<close>

definition lower_char :: "char \<Rightarrow> char" where
  "lower_char c =
     (let n = (of_char c :: nat) in if 65 \<le> n \<and> n \<le> 90 then char_of (n + 32) else c)"

definition ToLower :: "string \<Rightarrow> string" where
  "ToLower s = map lower_char s"

section \<open>The configuration document\<close>

text \<open>
  The file on disk: absent, not parseable as a YAML mapping, or a mapping. The content
  of a parseable file is the tree \<^verbatim>\<open>yaml.Marshal\<close> wrote (or an operator typed).
\<close>

datatype compose_file = Missing | Malformed | Document gomap

text \<open>
  The source reads the file through the viper library, whose keys are case-insensitive:
  after parsing, viper replaces every key of the mapping, and of every mapping nested in
  it, by its lowercase form (\<^verbatim>\<open>insensitiviseMap\<close>). Two keys of one mapping that differ
  only in case collapse into one entry; which of the two values survives follows Go's map
  iteration order. Here the entry that comes first in the list survives, and no theorem
  below depends on that choice.
\<close>

fun insensitivise :: "yaml \<Rightarrow> yaml" where
  "insensitivise (YMap kvs) =
     YMap (AList.clearjunk (map (\<lambda>p. (ToLower (fst p), insensitivise (snd p))) kvs))"
| "insensitivise (YSeq vs) = YSeq (map insensitivise vs)"
| "insensitivise (YStr s) = YStr s"
| "insensitivise (YInt i) = YInt i"
| "insensitivise YNull = YNull"

definition insensitiviseMap :: "gomap \<Rightarrow> gomap" where
  "insensitiviseMap kvs =
     AList.clearjunk (map (\<lambda>p. (ToLower (fst p), insensitivise (snd p))) kvs)"

text \<open>\<^verbatim>\<open>viper.ReadInConfig\<close>: the loaded settings, or the error.\<close>

definition ReadInConfig :: "compose_file \<Rightarrow> go_error + gomap" where
  "ReadInConfig f =
     (case f of
        Missing \<Rightarrow> Inl ConfigFileNotFoundError
      | Malformed \<Rightarrow> Inl ConfigParseError
      | Document doc \<Rightarrow> Inr (insensitiviseMap doc))"

text \<open>
  \<^verbatim>\<open>readInDockerCompose\<close> (lines 1205-1218): both read errors are fatal. The settings
  it returns stand for the viper object. The file is the one next to the running
  executable; \<^verbatim>\<open>os.Executable\<close> is taken to succeed when the file is located (its
  failure, fatal in \<^verbatim>\<open>getCwdFromExe\<close>, is modelled where a command is run).
\<close>

definition readInDockerCompose :: "compose_file \<Rightarrow> failure + gomap" where
  "readInDockerCompose f =
     (case ReadInConfig f of Inl e \<Rightarrow> Inl Fatal | Inr cur \<Rightarrow> Inr cur)"

text \<open>
  \<^verbatim>\<open>AllSettings\<close> of viper does not hand out the loaded mapping: it builds a new one
  from the keys that hold a value. A key whose value is null is left out, and so is a
  key whose value is a mapping in which nothing is left; a sequence is a value and is
  kept as it is. Keys that contain viper's path delimiter (a dot) are outside this model.
\<close>

fun AllSettings_value :: "yaml \<Rightarrow> yaml option" where
  "AllSettings_value (YMap kvs) =
     (case concat (map (\<lambda>p. case AllSettings_value (snd p) of
                              None \<Rightarrow> [] | Some v \<Rightarrow> [(fst p, v)]) kvs) of
        [] \<Rightarrow> None
      | kv # kvs' \<Rightarrow> Some (YMap (kv # kvs')))"
| "AllSettings_value YNull = None"
| "AllSettings_value (YSeq vs) = Some (YSeq vs)"
| "AllSettings_value (YStr s) = Some (YStr s)"
| "AllSettings_value (YInt i) = Some (YInt i)"

definition AllSettings :: "gomap \<Rightarrow> gomap" where
  "AllSettings cur = (case AllSettings_value (YMap cur) of Some (YMap m) \<Rightarrow> m | _ \<Rightarrow> [])"

text \<open>
  \<^verbatim>\<open>setDockerComposeDefaultsAndWrite\<close> (lines 1195-1204). \<open>compose_content\<close> is the
  mapping handed to \<^verbatim>\<open>yaml.Marshal\<close> after the two statements that precede it. The
  flag \<open>writable\<close> says whether \<^verbatim>\<open>os.WriteFile\<close> succeeds; when it fails the error is
  returned and the file is taken to be as it was.
\<close>

definition compose_content :: "gomap \<Rightarrow> gomap" where
  "compose_content curConfig =
     AList.delete ''networks'' (AList.update ''version'' (YStr ''2.4'') curConfig)"

definition setDockerComposeDefaultsAndWrite ::
  "bool \<Rightarrow> compose_file \<Rightarrow> gomap \<Rightarrow> go_error option \<times> compose_file" where
  "setDockerComposeDefaultsAndWrite writable f curConfig =
     (if writable then (None, Document (compose_content curConfig))
      else (Some WriteError, f))"

text \<open>
  \<^verbatim>\<open>InConfig("services." + name)\<close> and \<^verbatim>\<open>GetStringMap\<close> of the same path: the entry
  \<open>name\<close> of the mapping under \<open>services\<close> in the loaded settings; an entry whose value
  is null counts as absent. \<^verbatim>\<open>GetStringMap\<close> casts what it finds to a mapping and
  yields the empty mapping for anything else.
\<close>

definition services_of :: "gomap \<Rightarrow> gomap option" where
  "services_of cur =
     (case map_of cur ''services'' of Some (YMap svcs) \<Rightarrow> Some svcs | _ \<Rightarrow> None)"

definition service_entry :: "gomap \<Rightarrow> string \<Rightarrow> yaml option" where
  "service_entry cur name =
     (case services_of cur of
        Some svcs \<Rightarrow> (case map_of svcs name of Some YNull \<Rightarrow> None | entry \<Rightarrow> entry)
      | None \<Rightarrow> None)"

definition ToStringMap :: "yaml \<Rightarrow> gomap" where
  "ToStringMap v = (case v of YMap m \<Rightarrow> m | _ \<Rightarrow> [])"

text \<open>The seven \<^verbatim>\<open>delete\<close> statements of lines 273-279, in their order.\<close>

definition transient_keys :: "string list" where
  "transient_keys =
     [''network_mode'', ''extra_hosts'', ''build'', ''networks'', ''command'', ''image'',
      ''healthcheck'']"

definition strip_transient :: "gomap \<Rightarrow> gomap" where
  "strip_transient pStruct = fold AList.delete transient_keys pStruct"

definition default_service :: "string \<Rightarrow> gomap" where
  "default_service service =
     [(''logging'', YMap [(''driver'', YStr ''json-file''),
                          (''options'', YMap [(''max-file'', YStr ''1''),
                                              (''max-size'', YStr ''10m'')])]),
      (''restart'', YStr ''always''),
      (''labels'', YMap [(''name'', YStr service)]),
      (''container_name'', YStr service),
      (''image'', YStr service)]"

text \<open>\<^verbatim>\<open>GetServiceConfiguration\<close> (lines 268-298); its error result is always nil.\<close>

definition GetServiceConfiguration :: "compose_file \<Rightarrow> string \<Rightarrow> failure + gomap" where
  "GetServiceConfiguration f service =
     (case readInDockerCompose f of
        Inl e \<Rightarrow> Inl e
      | Inr curConfig \<Rightarrow>
          (case service_entry curConfig (ToLower service) of
             Some v \<Rightarrow> Inr (strip_transient (ToStringMap v))
           | None \<Rightarrow> Inr (default_service service)))"

text \<open>
  \<^verbatim>\<open>SetServiceConfiguration\<close> (lines 301-322), on \<^verbatim>\<open>AllSettings\<close> of the settings
  read (line 303). The loop over the top-level keys runs
  its body for the one key \<^verbatim>\<open>services\<close>, which is present after line 305. The type
  assertion of line 309 panics when the value under \<^verbatim>\<open>services\<close> is not a mapping.
  The definition is stored under \<open>service\<close> as passed (line 313).
\<close>

definition SetServiceConfiguration ::
  "bool \<Rightarrow> compose_file \<Rightarrow> string \<Rightarrow> gomap \<Rightarrow> failure + (go_error option \<times> compose_file)" where
  "SetServiceConfiguration writable f service pStruct =
     (case readInDockerCompose f of
        Inl e \<Rightarrow> Inl e
      | Inr curConfig \<Rightarrow>
          (let allConfigValues =
                 (if map_of (AllSettings curConfig) ''services'' = None
                  then AList.update ''services'' (YMap []) (AllSettings curConfig)
                  else AllSettings curConfig)
           in case map_of allConfigValues ''services'' of
                Some (YMap allServices) \<Rightarrow>
                  Inr (setDockerComposeDefaultsAndWrite writable f
                         (AList.update ''services''
                            (YMap (AList.update service (YMap pStruct) allServices))
                            allConfigValues))
              | _ \<Rightarrow> Inl Panic))"

text \<open>
  A value as viper hands it out after loading: in every mapping, at any depth, the keys
  are lowercase and no key occurs twice.
\<close>

fun case_folded :: "yaml \<Rightarrow> bool" where
  "case_folded (YMap kvs) =
     (distinct (map fst kvs) \<and>
      list_all (\<lambda>p. ToLower (fst p) = fst p \<and> case_folded (snd p)) kvs)"
| "case_folded (YSeq vs) = list_all case_folded vs"
| "case_folded (YStr s) = True"
| "case_folded (YInt i) = True"
| "case_folded YNull = True"

section \<open>Declared services\<close>

text \<open>
  Modelled from the spec: \<^verbatim>\<open>utils.StringInSlice\<close> is defined in the package
  \<^verbatim>\<open>cmd/utils\<close>, which is not among the source files. The spec uses it as membership
  of a name in a set of names (``Declared = services keys minus Core Service Set'').
\<close>

definition StringInSlice :: "string \<Rightarrow> string list \<Rightarrow> bool" where
  "StringInSlice a lst = (a \<in> set lst)"

text \<open>
  \<^verbatim>\<open>GetAllInstalled3rdPartyServiceNames\<close> (lines 1263-1290) and
  \<^verbatim>\<open>GetCurrentMythicServiceNames\<close> (lines 1293-1319). The list
  \<^verbatim>\<open>config.MythicPossibleServices\<close> is declared in the package \<^verbatim>\<open>cmd/config\<close>, which is
  not among the source files: it is the parameter \<open>possible\<close>. \<^verbatim>\<open>Sub("services")\<close> is nil
  when the key is absent or its value is not a mapping; the names are the keys of
  \<^verbatim>\<open>AllSettings\<close> of that mapping. Both functions return the slice and the error.
\<close>

definition GetAllInstalled3rdPartyServiceNames ::
  "string list \<Rightarrow> compose_file \<Rightarrow> string list \<times> go_error option" where
  "GetAllInstalled3rdPartyServiceNames possible f =
     (case ReadInConfig f of
        Inl err \<Rightarrow> ([], Some err)
      | Inr cur \<Rightarrow>
          (case services_of cur of
             None \<Rightarrow> ([], None)
           | Some services \<Rightarrow>
               (filter (\<lambda>service. \<not> StringInSlice service possible)
                  (map fst (AllSettings services)),
                None)))"


section \<open>Running the compose tool\<close>

text \<open>
  What \<^verbatim>\<open>runDockerCompose\<close> reads from the operating system: the search path
  (\<^verbatim>\<open>exec.LookPath\<close>), the directory of the running executable (\<^verbatim>\<open>os.Executable\<close>,
  \<open>None\<close> when it fails), and whether each step of starting the child process succeeds.
\<close>

record process_env =
  LookPath :: "string \<Rightarrow> string option"
  Executable_dir :: "string option"
  pty_Start_ok :: bool
  StdoutPipe_ok :: bool
  StderrPipe_ok :: bool
  Start_ok :: bool
  Wait_ok :: bool

record command =
  Path :: string
  Args :: "string list"
  Dir :: string

text \<open>
  Lines 1138-1147: the program and the argument list. \<^verbatim>\<open>docker-compose\<close> is looked up
  first; only when that fails is \<^verbatim>\<open>docker\<close> looked up and \<^verbatim>\<open>compose\<close> put in front
  of the arguments; when both fail the process ends.
\<close>

definition select_compose_tool ::
  "(string \<Rightarrow> string option) \<Rightarrow> string list \<Rightarrow> failure + (string \<times> string list)" where
  "select_compose_tool lookPath args =
     (case lookPath ''docker-compose'' of
        Some p \<Rightarrow> Inr (p, args)
      | None \<Rightarrow>
          (case lookPath ''docker'' of
             Some p \<Rightarrow> Inr (p, ''compose'' # args)
           | None \<Rightarrow> Inl Fatal))"

text \<open>
  \<^verbatim>\<open>runDockerCompose\<close> (lines 1137-1194): the command that was run and the error
  returned, or the fatal exit. With a pseudo-terminal the output is copied and nil is
  returned; without one the command is started on pipes and its exit status is returned.
\<close>

definition runDockerCompose ::
  "process_env \<Rightarrow> string list \<Rightarrow> failure + (command \<times> go_error option)" where
  "runDockerCompose env args =
     (case select_compose_tool (LookPath env) args of
        Inl e \<Rightarrow> Inl e
      | Inr (lookPath, args') \<Rightarrow>
          (case Executable_dir env of
             None \<Rightarrow> Inl Fatal
           | Some exePath \<Rightarrow>
               (let command = \<lparr>Path = lookPath, Args = args', Dir = exePath\<rparr>
                in if pty_Start_ok env then Inr (command, None)
                   else if \<not> StdoutPipe_ok env then Inl Fatal
                   else if \<not> StderrPipe_ok env then Inl Fatal
                   else if \<not> Start_ok env then Inl Fatal
                   else if \<not> Wait_ok env then Inr (command, Some ExitError)
                   else Inr (command, None))))"

section \<open>The container engine\<close>

text \<open>
  The structs of the Docker API the manager reads (\<^verbatim>\<open>types.Port\<close>,
  \<^verbatim>\<open>types.MountPoint\<close>, \<^verbatim>\<open>types.Container\<close>, \<^verbatim>\<open>volume.Volume\<close>), with the fields it
  uses. A lookup in \<^verbatim>\<open>Labels\<close> of a key that is absent yields the empty string.
\<close>

record port =
  IP :: string
  PrivatePort :: "16 word"
  PublicPort :: "16 word"
  Type :: string

record mount_point =
  mnt_Name :: string
  mnt_Source :: string
  mnt_Destination :: string

record container =
  ID :: string
  Image :: string
  Labels :: "(string \<times> string) list"
  State :: string
  Status :: string
  Ports :: "port list"
  Mounts :: "mount_point list"

record volume =
  vol_Name :: string
  vol_Mountpoint :: string


text \<open>
  The engine as the client sees it during one call: whether a client can be created
  (\<^verbatim>\<open>client.NewClientWithOpts\<close>), the answer to \<^verbatim>\<open>ContainerList\<close> with the option
  \<^verbatim>\<open>All\<close> set or not, the answer to \<^verbatim>\<open>VolumeList\<close>, and the error returned by each
  removal. \<open>None\<close> as an answer is an error of the engine.
\<close>

record engine =
  client_ok :: bool
  ContainerList :: "bool \<Rightarrow> container list option"
  VolumeList :: "volume list option"
  ContainerRemove :: "string \<Rightarrow> go_error option"
  VolumeRemove :: "string \<Rightarrow> go_error option"

datatype engine_call = CallContainerRemove string | CallVolumeRemove string






text \<open>
  \<^verbatim>\<open>RemoveVolume\<close> (lines 954-990): the removals it asks the engine for, in order, and
  the error it returns. A failed client is a panic, a failed container list is fatal.
  Lines 971-983, for the containers that mount the volume:
\<close>

definition remove_users :: "string \<Rightarrow> container list \<Rightarrow> engine_call list" where
  "remove_users volumeName containers =
     concat (map (\<lambda>c. map (\<lambda>m. CallContainerRemove (ID c))
                        (filter (\<lambda>m. mnt_Name m = volumeName) (Mounts c)))
                 containers)"

fun RemoveVolume_loop ::
  "engine \<Rightarrow> string \<Rightarrow> volume list \<Rightarrow> failure + (engine_call list \<times> go_error option)" where
  "RemoveVolume_loop eng volumeName [] = Inr ([], None)"
| "RemoveVolume_loop eng volumeName (currentVolume # volumes) =
     (if vol_Name currentVolume = volumeName then
        (case ContainerList eng False of
           None \<Rightarrow> Inl Fatal
         | Some containers \<Rightarrow>
             Inr (remove_users volumeName containers @
                    [CallVolumeRemove (vol_Name currentVolume)],
                  VolumeRemove eng (vol_Name currentVolume)))
      else RemoveVolume_loop eng volumeName volumes)"

definition RemoveVolume ::
  "engine \<Rightarrow> string \<Rightarrow> failure + (engine_call list \<times> go_error option)" where
  "RemoveVolume eng volumeName =
     (if \<not> client_ok eng then Inl Panic
      else case VolumeList eng of
             None \<Rightarrow> Inr ([], Some EngineError)
           | Some volumes \<Rightarrow> RemoveVolume_loop eng volumeName volumes)"

section \<open>The log stream\<close>

unbundle bit_operations_syntax

text \<open>
  The reader returned by \<^verbatim>\<open>ContainerLogs\<close> is the list of chunks the stream still has
  to deliver. \<^verbatim>\<open>Read\<close> with a buffer of \<open>n\<close> bytes takes up to \<open>n\<close> bytes of the first
  chunk, as an \<^verbatim>\<open>io.Reader\<close> may: it returns the bytes read, the error (end of file when
  no chunk is left) and the reader that remains. \<open>fill buf data\<close> is the buffer after
  the bytes read were stored at its start.
\<close>

definition Read :: "byte list list \<Rightarrow> nat \<Rightarrow> byte list \<times> go_error option \<times> byte list list" where
  "Read rd n =
     (case rd of
        [] \<Rightarrow> ([], Some EOF, [])
      | c # cs \<Rightarrow> (take n c, None, if n < length c then drop n c # cs else cs))"

definition fill :: "byte list \<Rightarrow> byte list \<Rightarrow> byte list" where
  "fill buf data = data @ drop (length data) buf"

text \<open>
  \<^verbatim>\<open>binary.BigEndian.Uint32\<close>. On a slice shorter than four bytes Go panics; the
  slice here is \<^verbatim>\<open>p[4:]\<close> of the eight-byte buffer.
\<close>

fun BigEndian_Uint32 :: "byte list \<Rightarrow> 32 word" where
  "BigEndian_Uint32 (b0 # b1 # b2 # b3 # bs) =
     ucast b3 OR push_bit 8 (ucast b2) OR push_bit 16 (ucast b1) OR push_bit 24 (ucast b0)"
| "BigEndian_Uint32 _ = 0"

definition pending :: "byte list list \<Rightarrow> nat" where
  "pending rd = sum_list (map (\<lambda>c. Suc (length c)) rd)"

lemma Read_pending_le: "Read rd n = (d, e, rd') \<Longrightarrow> pending rd' \<le> pending rd"
  by (auto simp: Read_def pending_def split: list.splits if_splits)

lemma Read_pending_less:
  "Read rd n = (d, None, rd') \<Longrightarrow> 0 < n \<Longrightarrow> pending rd' < pending rd"
  by (auto simp: Read_def pending_def split: list.splits if_splits)

text \<open>
  The loop of lines 509-514 in \<^verbatim>\<open>GetLogs\<close>, entered when the first read of the header
  returned no error. \<open>p\<close> is the header buffer of line 507 (eight bytes, reused by every
  read of a header), \<open>printed\<close> the payloads printed so far. Line 511 drops both results
  of the read of the payload. The result is what was printed when the loop ended.
\<close>

function GetLogs_loop :: "byte list list \<Rightarrow> byte list \<Rightarrow> byte list list \<Rightarrow> byte list list" where
  "GetLogs_loop reader p printed =
     (case Read reader (unat (BigEndian_Uint32 (drop 4 p))) of
        (data, _, reader1) \<Rightarrow>
          (let content = fill (replicate (unat (BigEndian_Uint32 (drop 4 p))) 0) data
           in case Read reader1 8 of
                (hdr, err, reader2) \<Rightarrow>
                  if err = None then GetLogs_loop reader2 (fill p hdr) (printed @ [content])
                  else printed @ [content]))"
  by pat_completeness auto
termination
  apply (relation "measure (\<lambda>(reader, p, printed). pending reader)")
   apply simp
  apply clarsimp
  subgoal for reader p x a b xb ba
    using Read_pending_le[of reader "unat (BigEndian_Uint32 (drop 4 p))" x a b]
      Read_pending_less[of b 8 xb ba]
    by simp
  done

declare GetLogs_loop.simps [simp del]

text \<open>Lines 507-514: the first read of the header, then the loop.\<close>

definition GetLogs_stream :: "byte list list \<Rightarrow> byte list list" where
  "GetLogs_stream reader =
     (case Read reader 8 of
        (hdr, err, reader1) \<Rightarrow>
          if err = None then GetLogs_loop reader1 (fill (replicate 8 0) hdr) [] else [])"

text \<open>
  The contract of one frame in the words of the spec (section 4.3), to set against the
  code: end of stream when fewer than eight bytes are left, \<open>Truncated\<close> when fewer
  payload bytes are left than the header declares.
\<close>

datatype frame_result = Frame byte "byte list" | EndOfStream | Truncated

definition spec_nextFrame :: "byte list \<Rightarrow> frame_result" where
  "spec_nextFrame input =
     (if length input < 8 then EndOfStream
      else let n = unat (BigEndian_Uint32 (drop 4 input))
           in if length input - 8 < n then Truncated
              else Frame (hd input) (take n (drop 8 input)))"

section \<open>Printing numbers\<close>

text \<open>
  \<^verbatim>\<open>strconv.Itoa\<close>, and \<^verbatim>\<open>%d\<close> of \<^verbatim>\<open>fmt\<close> for an unsigned number: the decimal
  digits, most significant first, after a minus sign for a negative number.
\<close>

definition digit_char :: "nat \<Rightarrow> char" where
  "digit_char d = ''0123456789'' ! d"

function decimal :: "nat \<Rightarrow> string" where
  "decimal n = (if n < 10 then [digit_char n] else decimal (n div 10) @ [digit_char (n mod 10)])"
  by pat_completeness auto
termination
  by (relation "measure id") auto

declare decimal.simps [simp del]

definition Itoa :: "int \<Rightarrow> string" where
  "Itoa i = (if i < 0 then ''-'' @ decimal (nat (- i)) else decimal (nat i))"


section \<open>Port checks before a start\<close>

text \<open>
  \<^verbatim>\<open>config.GetMythicEnv\<close> is in the package \<^verbatim>\<open>cmd/config\<close>, which is not among the
  source files: the two lookups \<^verbatim>\<open>TestPorts\<close> makes in it are parameters. A call of
  \<^verbatim>\<open>net.Listen("tcp", address)\<close> or of \<^verbatim>\<open>Close\<close> on the listener is recorded with
  the address; an address \<^verbatim>\<open>:port\<close> has no host part and so means all interfaces.
\<close>

record mythic_env =
  GetString :: "string \<Rightarrow> string"
  GetInt :: "string \<Rightarrow> int"

datatype net_call = Listen string | Close string

text \<open>The table of lines 534-567: host variable, then port variable and service name.\<close>

definition portChecks :: "(string \<times> string list) list" where
  "portChecks =
     [(''MYTHIC_SERVER_HOST'', [''MYTHIC_SERVER_PORT'', ''mythic_server'']),
      (''POSTGRES_HOST'', [''POSTGRES_PORT'', ''mythic_postgres'']),
      (''HASURA_HOST'', [''HASURA_PORT'', ''mythic_graphql'']),
      (''RABBITMQ_HOST'', [''RABBITMQ_PORT'', ''mythic_rabbitmq'']),
      (''DOCUMENTATION_HOST'', [''DOCUMENTATION_PORT'', ''mythic_documentation'']),
      (''NGINX_HOST'', [''NGINX_PORT'', ''mythic_nginx'']),
      (''MYTHIC_REACT_HOST'', [''MYTHIC_REACT_PORT'', ''mythic_react'']),
      (''JUPYTER_HOST'', [''JUPYTER_PORT'', ''mythic_jupyter''])]"

text \<open>
  The loop of lines 571-589 over the entries in the order \<^verbatim>\<open>range\<close> visits them.
  \<open>listen\<close> says for each address whether \<^verbatim>\<open>net.Listen\<close> succeeds. The state is the
  two slices of the source, \<^verbatim>\<open>addServices\<close> and \<^verbatim>\<open>removeServices\<close>, and the calls made
  so far. A failed \<^verbatim>\<open>Listen\<close> is fatal; an error of \<^verbatim>\<open>Close\<close> is only logged.
\<close>

fun TestPorts_loop ::
  "(string \<Rightarrow> bool) \<Rightarrow> mythic_env \<Rightarrow> string list \<Rightarrow> (string \<times> string list) list \<Rightarrow>
   string list \<times> string list \<times> net_call list \<Rightarrow>
   (string list \<times> string list \<times> net_call list) \<times> failure option" where
  "TestPorts_loop listen mythicEnv services [] st = (st, None)"
| "TestPorts_loop listen mythicEnv services ((key, val) # rest)
       (addServices, removeServices, calls) =
     (if StringInSlice (val ! 1) services then
        if GetString mythicEnv key = val ! 1 \<or> GetString mythicEnv key = ''127.0.0.1'' then
          (let address = '':'' @ Itoa (GetInt mythicEnv (val ! 0))
           in if listen address
              then TestPorts_loop listen mythicEnv services rest
                     (addServices @ [val ! 1], removeServices,
                      calls @ [Listen address, Close address])
              else ((addServices @ [val ! 1], removeServices, calls @ [Listen address]),
                    Some Fatal))
        else TestPorts_loop listen mythicEnv services rest
               (addServices, removeServices @ [val ! 1], calls)
      else TestPorts_loop listen mythicEnv services rest (addServices, removeServices, calls))"

text \<open>
  \<^verbatim>\<open>TestPorts\<close> (lines 526-590). \<open>order\<close> is the table in the order the run visits
  it: Go leaves the order of \<^verbatim>\<open>range\<close> over a map open.
\<close>

definition TestPorts ::
  "(string \<Rightarrow> bool) \<Rightarrow> mythic_env \<Rightarrow> string list \<Rightarrow> (string \<times> string list) list \<Rightarrow>
   (string list \<times> string list \<times> net_call list) \<times> failure option" where
  "TestPorts listen mythicEnv services order =
     TestPorts_loop listen mythicEnv services order ([], [], [])"

text \<open>
  For an entry of the table: whether its service is in the start set and its host
  variable holds the service's own name or \<^verbatim>\<open>127.0.0.1\<close>; the address that is bound for
  it; the two calls of a successful check.
\<close>

definition to_check :: "mythic_env \<Rightarrow> string list \<Rightarrow> string \<times> string list \<Rightarrow> bool" where
  "to_check mythicEnv services e =
     (snd e ! 1 \<in> set services \<and>
      (GetString mythicEnv (fst e) = snd e ! 1 \<or> GetString mythicEnv (fst e) = ''127.0.0.1''))"

definition address_of :: "mythic_env \<Rightarrow> string \<times> string list \<Rightarrow> string" where
  "address_of mythicEnv e = '':'' @ Itoa (GetInt mythicEnv (snd e ! 0))"

definition binds :: "mythic_env \<Rightarrow> string \<times> string list \<Rightarrow> net_call list" where
  "binds mythicEnv e = [Listen (address_of mythicEnv e), Close (address_of mythicEnv e)]"

section \<open>The port column of the status table\<close>







section \<open>Results\<close>

subsection \<open>Case folding\<close>

lemma lower_char_idem: "lower_char (lower_char c) = lower_char c"
  by (simp add: lower_char_def Let_def)

lemma ToLower_idem: "ToLower (ToLower s) = ToLower s"
  by (simp add: ToLower_def lower_char_idem)

lemma set_clearjunk_subset: "set (AList.clearjunk al) \<subseteq> set al"
  by (induct al rule: AList.clearjunk.induct) (auto simp: AList.delete_eq)

lemma set_update_subset: "set (AList.update k v al) \<subseteq> insert (k, v) (set al)"
  by (induct al) auto

lemma insensitivise_folded: "case_folded v \<Longrightarrow> insensitivise v = v"
proof (induction v rule: insensitivise.induct)
  case (1 kvs)
  have "map (\<lambda>p. (ToLower (fst p), insensitivise (snd p))) kvs = kvs"
    using 1 by (intro map_idI) (auto simp: list_all_iff)
  with 1 show ?case by simp
next
  case (2 vs)
  then show ?case by (auto simp: list_all_iff intro: map_idI)
qed simp_all

lemma case_folded_insensitivise: "case_folded (insensitivise v)"
proof (induction v rule: insensitivise.induct)
  case (1 kvs)
  show ?case
    using 1 set_clearjunk_subset[of "map (\<lambda>p. (ToLower (fst p), insensitivise (snd p))) kvs"]
    by (auto simp: list_all_iff ToLower_idem)
next
  case (2 vs)
  then show ?case by (auto simp: list_all_iff)
qed simp_all

lemma case_folded_insensitiviseMap: "case_folded (YMap (insensitiviseMap doc))"
  using case_folded_insensitivise[of "YMap doc"] by (simp add: insensitiviseMap_def)

lemma insensitiviseMap_folded: "case_folded (YMap c) \<Longrightarrow> insensitiviseMap c = c"
  using insensitivise_folded[of "YMap c"] by (simp add: insensitiviseMap_def)

lemma case_folded_update:
  "case_folded (YMap al) \<Longrightarrow> ToLower k = k \<Longrightarrow> case_folded v \<Longrightarrow>
   case_folded (YMap (AList.update k v al))"
  using set_update_subset[of k v al]
  by (auto simp: list_all_iff AList.distinct_update)

lemma case_folded_delete:
  "case_folded (YMap al) \<Longrightarrow> case_folded (YMap (AList.delete k al))"
proof -
  assume a: "case_folded (YMap al)"
  then have "distinct (map fst (AList.delete k al))" by (simp add: AList.distinct_delete)
  moreover have "set (AList.delete k al) \<subseteq> set al" by (auto simp: AList.delete_eq)
  ultimately show ?thesis using a by (auto simp: list_all_iff)
qed

lemma case_folded_services:
  assumes "case_folded (YMap cur)" "services_of cur = Some svcs"
  shows "case_folded (YMap svcs)"
proof -
  from assms(2) have "map_of cur ''services'' = Some (YMap svcs)"
    by (auto simp: services_of_def split: option.splits yaml.splits)
  then have "(''services'', YMap svcs) \<in> set cur" by (rule map_of_SomeD)
  moreover from assms(1) have "\<forall>p\<in>set cur. case_folded (snd p)"
    by (simp add: list_all_iff)
  ultimately have "case_folded (snd (''services'', YMap svcs))" by blast
  then show ?thesis by (simp only: snd_conv)
qed

lemma readInDockerCompose_folded:
  "case_folded (YMap c) \<Longrightarrow> readInDockerCompose (Document c) = Inr c"
  by (simp add: readInDockerCompose_def ReadInConfig_def insensitiviseMap_folded)

lemma readInDockerCompose_case_folded:
  "readInDockerCompose f = Inr cur \<Longrightarrow> case_folded (YMap cur)"
  by (auto simp: readInDockerCompose_def ReadInConfig_def case_folded_insensitiviseMap
      simp del: case_folded.simps split: compose_file.splits)

lemma case_folded_compose_content:
  "case_folded (YMap c) \<Longrightarrow> case_folded (YMap (compose_content c))"
proof -
  assume "case_folded (YMap c)"
  moreover have "ToLower ''version'' = ''version''" by code_simp
  ultimately have "case_folded (YMap (AList.update ''version'' (YStr ''2.4'') c))"
    by (intro case_folded_update) simp_all
  then show ?thesis unfolding compose_content_def by (rule case_folded_delete)
qed

lemma services_of_compose_content:
  "services_of (compose_content c) = services_of c"
  by (simp add: services_of_def compose_content_def AList.delete_conv' AList.update_conv')

lemma map_of_fold_delete:
  "map_of (fold AList.delete ks al) = map_of al |` (- set ks)"
  by (induct ks arbitrary: al) (auto simp: AList.delete_conv' restrict_map_def fun_eq_iff)

subsection \<open>The settings handed out\<close>

lemma kept_mem:
  "(k, w) \<in> set (concat (map (\<lambda>p. case g (snd p) of None \<Rightarrow> [] | Some v \<Rightarrow> [(fst p, v)]) kvs))
   \<longleftrightarrow> (\<exists>v. (k, v) \<in> set kvs \<and> g v = Some w)"
  by (induct kvs) (auto split: option.splits)

lemma kept_keys:
  "map fst (concat (map (\<lambda>p. case g (snd p) of None \<Rightarrow> [] | Some v \<Rightarrow> [(fst p, v)]) kvs)) =
   map fst (filter (\<lambda>p. g (snd p) \<noteq> None) kvs)"
  by (induct kvs) (auto split: option.splits)







lemma case_folded_AllSettings_value:
  "case_folded v \<Longrightarrow> AllSettings_value v = Some v' \<Longrightarrow> case_folded v'"
proof (induction v arbitrary: v' rule: AllSettings_value.induct)
  case (1 kvs)
  let ?m = "concat (map (\<lambda>p. case AllSettings_value (snd p) of
                              None \<Rightarrow> [] | Some v \<Rightarrow> [(fst p, v)]) kvs)"
  have v': "v' = YMap ?m" using "1.prems"(2) by (cases ?m) simp_all
  from "1.prems"(1) have d: "distinct (map fst kvs)"
    and els: "\<forall>p\<in>set kvs. ToLower (fst p) = fst p \<and> case_folded (snd p)"
    by (simp_all add: list_all_iff)
  from d have "distinct (map fst ?m)" unfolding kept_keys by (rule distinct_map_filter)
  moreover have "ToLower (fst q) = fst q \<and> case_folded (snd q)" if "q \<in> set ?m" for q
  proof -
    from that obtain v where v: "(fst q, v) \<in> set kvs" "AllSettings_value v = Some (snd q)"
      using kept_mem[of "fst q" "snd q" AllSettings_value kvs] by auto
    with els have "ToLower (fst q) = fst q" "case_folded v" by auto
    with "1.IH"[of "(fst q, v)" "snd q"] v show ?thesis by simp
  qed
  ultimately show ?case unfolding v' by (simp add: list_all_iff)
qed auto

lemma case_folded_AllSettings:
  assumes "case_folded (YMap cur)"
  shows "case_folded (YMap (AllSettings cur))"
proof (cases "AllSettings_value (YMap cur)")
  case None
  then show ?thesis by (simp add: AllSettings_def)
next
  case (Some v)
  with assms have "case_folded v" by (rule case_folded_AllSettings_value)
  moreover from Some have "v = YMap (AllSettings cur)"
    by (auto simp: AllSettings_def split: list.splits)
  ultimately show ?thesis by simp
qed

subsection \<open>Reading back a service definition\<close>

lemma SetServiceConfiguration_written:
  assumes "SetServiceConfiguration w f n def = Inr (None, f')"
  shows "\<exists>cur svcs. case_folded (YMap cur) \<and>
           (services_of cur = Some svcs \<or> map_of cur ''services'' = None \<and> svcs = []) \<and>
           f' = Document (compose_content (AList.update ''services''
                  (YMap (AList.update n (YMap def) svcs))
                  (if map_of cur ''services'' = None
                   then AList.update ''services'' (YMap []) cur else cur)))"
proof -
  from assms obtain loaded where loaded: "readInDockerCompose f = Inr loaded"
    by (auto simp: SetServiceConfiguration_def split: sum.splits)
  then have "case_folded (YMap loaded)" by (rule readInDockerCompose_case_folded)
  then have "case_folded (YMap (AllSettings loaded))" by (rule case_folded_AllSettings)
  moreover from assms loaded have "\<exists>svcs.
      (services_of (AllSettings loaded) = Some svcs \<or>
       map_of (AllSettings loaded) ''services'' = None \<and> svcs = []) \<and>
      f' = Document (compose_content (AList.update ''services''
             (YMap (AList.update n (YMap def) svcs))
             (if map_of (AllSettings loaded) ''services'' = None
              then AList.update ''services'' (YMap []) (AllSettings loaded)
              else AllSettings loaded)))"
    by (auto simp: SetServiceConfiguration_def setDockerComposeDefaultsAndWrite_def Let_def
        services_of_def AList.update_conv'
        split: option.splits yaml.splits if_splits)
  ultimately show ?thesis by blast
qed

lemma SetServiceConfiguration_succeeds:
  assumes "map_of (AllSettings (insensitiviseMap doc)) ''services'' = None \<or>
           services_of (AllSettings (insensitiviseMap doc)) \<noteq> None"
  shows "\<exists>f'. SetServiceConfiguration True (Document doc) n def = Inr (None, f')"
  using assms
  by (auto simp: SetServiceConfiguration_def setDockerComposeDefaultsAndWrite_def Let_def
      services_of_def AList.update_conv' readInDockerCompose_def ReadInConfig_def
      split: sum.splits option.splits yaml.splits if_splits)

text \<open>
  C1, as amended. Let \<open>n\<close> be a lowercase service name and \<open>def\<close> a definition whose
  mapping keys are lowercase at every depth (and, being Go maps, have no key twice). If \<^verbatim>\<open>SetServiceConfiguration\<close> writes the
  file, then \<^verbatim>\<open>GetServiceConfiguration\<close> of the same name on the written file returns
  \<open>def\<close> without the seven transient keys and with every other key bound to the value
  it has in \<open>def\<close>.
\<close>

theorem set_then_get_service:
  assumes lower: "ToLower n = n" and folded: "case_folded (YMap def)"
    and written: "SetServiceConfiguration w f n def = Inr (None, f')"
  shows "\<exists>r. GetServiceConfiguration f' n = Inr r \<and>
             map_of r = map_of def |` (- set transient_keys)"
proof -
  have lower_services: "ToLower ''services'' = ''services''" by code_simp
  from SetServiceConfiguration_written[OF written] obtain cur svcs where
    cur_folded: "case_folded (YMap cur)" and
    svcs: "services_of cur = Some svcs \<or> map_of cur ''services'' = None \<and> svcs = []" and
    f': "f' = Document (compose_content (AList.update ''services''
                  (YMap (AList.update n (YMap def) svcs))
                  (if map_of cur ''services'' = None
                   then AList.update ''services'' (YMap []) cur else cur)))"
    by blast
  let ?all = "if map_of cur ''services'' = None
              then AList.update ''services'' (YMap []) cur else cur"
  let ?new = "AList.update ''services'' (YMap (AList.update n (YMap def) svcs)) ?all"
  have svcs_folded: "case_folded (YMap svcs)"
  proof (cases "services_of cur")
    case None
    with svcs show ?thesis by simp
  next
    case (Some s)
    with svcs have "services_of cur = Some svcs"
      by (auto simp: services_of_def)
    with cur_folded show ?thesis by (rule case_folded_services)
  qed
  have "case_folded (YMap (AList.update ''services'' (YMap []) cur))"
    using cur_folded lower_services by (rule case_folded_update) simp
  with cur_folded have all_folded: "case_folded (YMap ?all)"
    by (simp del: case_folded.simps)
  have upd_folded: "case_folded (YMap (AList.update n (YMap def) svcs))"
    using svcs_folded lower folded by (rule case_folded_update)
  have "case_folded (YMap ?new)"
    by (rule case_folded_update[OF all_folded lower_services upd_folded])
  then have "case_folded (YMap (compose_content ?new))"
    by (rule case_folded_compose_content)
  then have read: "readInDockerCompose f' = Inr (compose_content ?new)"
    unfolding f' by (rule readInDockerCompose_folded)
  have "services_of (compose_content ?new) = Some (AList.update n (YMap def) svcs)"
    unfolding services_of_compose_content by (simp add: services_of_def AList.update_conv')
  then have "service_entry (compose_content ?new) n = Some (YMap def)"
    by (simp add: service_entry_def AList.update_conv')
  with read lower have "GetServiceConfiguration f' n = Inr (strip_transient def)"
    by (simp add: GetServiceConfiguration_def ToStringMap_def)
  then show ?thesis
    by (simp add: strip_transient_def map_of_fold_delete)
qed

theorem set_then_get_service_witness:
  "ToLower ''web'' = ''web'' \<and>
   case_folded (YMap [(''restart'', YStr ''always''), (''image'', YStr ''web'')]) \<and>
   SetServiceConfiguration True (Document []) ''web''
       [(''restart'', YStr ''always''), (''image'', YStr ''web'')] =
     Inr (None, Document
       [(''services'', YMap [(''web'', YMap [(''restart'', YStr ''always''),
                                             (''image'', YStr ''web'')])]),
        (''version'', YStr ''2.4'')]) \<and>
   (\<exists>r. GetServiceConfiguration (Document
       [(''services'', YMap [(''web'', YMap [(''restart'', YStr ''always''),
                                             (''image'', YStr ''web'')])]),
        (''version'', YStr ''2.4'')]) ''web'' = Inr r \<and>
      map_of r = map_of [(''restart'', YStr ''always''), (''image'', YStr ''web'')]
                   |` (- set transient_keys))"
proof -
  have h1: "ToLower ''web'' = ''web''" by code_simp
  have h2: "case_folded (YMap [(''restart'', YStr ''always''), (''image'', YStr ''web'')])"
    by code_simp
  have h3: "SetServiceConfiguration True (Document []) ''web''
       [(''restart'', YStr ''always''), (''image'', YStr ''web'')] =
     Inr (None, Document
       [(''services'', YMap [(''web'', YMap [(''restart'', YStr ''always''),
                                             (''image'', YStr ''web'')])]),
        (''version'', YStr ''2.4'')])"
    by code_simp
  from set_then_get_service[OF h1 h2 h3] h1 h2 h3 show ?thesis by blast
qed

text \<open>
  C1 as stated fails for a definition with a key that is not lowercase: the key
  \<open>Restart\<close> is written as it is, and read back as \<open>restart\<close>.
\<close>

theorem set_then_get_service_counterexample:
  "SetServiceConfiguration True (Document []) ''web'' [(''Restart'', YStr ''always'')] =
     Inr (None, Document
       [(''services'', YMap [(''web'', YMap [(''Restart'', YStr ''always'')])]),
        (''version'', YStr ''2.4'')]) \<and>
   GetServiceConfiguration (Document
       [(''services'', YMap [(''web'', YMap [(''Restart'', YStr ''always'')])]),
        (''version'', YStr ''2.4'')]) ''web'' = Inr [(''restart'', YStr ''always'')] \<and>
   map_of [(''restart'', YStr ''always'')] ''Restart'' = None \<and>
   (map_of [(''Restart'', YStr ''always'')] |` (- set transient_keys)) ''Restart'' =
     Some (YStr ''always'')"
proof -
  have "SetServiceConfiguration True (Document []) ''web'' [(''Restart'', YStr ''always'')] =
     Inr (None, Document
       [(''services'', YMap [(''web'', YMap [(''Restart'', YStr ''always'')])]),
        (''version'', YStr ''2.4'')])"
    by code_simp
  moreover have "GetServiceConfiguration (Document
       [(''services'', YMap [(''web'', YMap [(''Restart'', YStr ''always'')])]),
        (''version'', YStr ''2.4'')]) ''web'' = Inr [(''restart'', YStr ''always'')]"
    by code_simp
  moreover have "(map_of [(''Restart'', YStr ''always'')] |` (- set transient_keys))
      ''Restart'' = Some (YStr ''always'')"
    by (simp add: transient_keys_def)
  ultimately show ?thesis by simp
qed

subsection \<open>The key under which a definition is stored\<close>

text \<open>
  C3 at the name \<open>Foo\<close>, on a document that declares \<open>foo\<close>: the definition is written
  under the key \<open>Foo\<close>, and the entry \<open>foo\<close> keeps its old definition.
\<close>

theorem SetServiceConfiguration_keeps_case:
  "SetServiceConfiguration True
     (Document [(''services'', YMap [(''foo'', YMap [(''restart'', YStr ''always'')])])])
     ''Foo'' [(''restart'', YStr ''no'')] =
   Inr (None, Document [(''services'', YMap [(''foo'', YMap [(''restart'', YStr ''always'')]),
                                             (''Foo'', YMap [(''restart'', YStr ''no'')])]),
                        (''version'', YStr ''2.4'')])"
  by code_simp

subsection \<open>Removing services\<close>



















subsection \<open>Removing a volume the engine does not know\<close>

lemma RemoveVolume_loop_absent:
  "volumeName \<notin> vol_Name ` set volumes \<Longrightarrow>
   RemoveVolume_loop eng volumeName volumes = Inr ([], None)"
  by (induct volumes) auto

text \<open>
  C10. When the engine answers \<^verbatim>\<open>VolumeList\<close> and no volume of the answer has the given
  name, \<^verbatim>\<open>RemoveVolume\<close> asks for no removal, of a container or of a volume, and
  returns nil.
\<close>

theorem RemoveVolume_absent:
  assumes "client_ok eng" and "VolumeList eng = Some volumes"
    and "volumeName \<notin> vol_Name ` set volumes"
  shows "RemoveVolume eng volumeName = Inr ([], None)"
  using assms by (simp add: RemoveVolume_def RemoveVolume_loop_absent)


theorem RemoveVolume_absent_witness:
  "RemoveVolume
     \<lparr>client_ok = True, ContainerList = (\<lambda>a. Some []),
      VolumeList = Some [\<lparr>vol_Name = ''mythic_postgres_volume'',
                          vol_Mountpoint = ''/var/lib/docker/volumes/p''\<rparr>],
      ContainerRemove = (\<lambda>i. None), VolumeRemove = (\<lambda>v. None)\<rparr>
     ''mythic_rabbitmq_volume'' = Inr ([], None)"
  by (rule RemoveVolume_absent
      [where volumes = "[\<lparr>vol_Name = ''mythic_postgres_volume'',
                          vol_Mountpoint = ''/var/lib/docker/volumes/p''\<rparr>]"]) simp_all

subsection \<open>Decoding the log stream\<close>

text \<open>
  C2 on three inputs. An input that ends two bytes into a payload of four, where the
  contract of the spec is \<open>Truncated\<close>: the loop prints a payload of four bytes, the two
  that arrived and two zero bytes, and ends without an error. A complete frame with a
  payload of four bytes that the stream delivers in two reads: the loop prints the first
  two bytes and two zero bytes, and then takes the rest of the payload for a header. A
  complete frame followed by three more bytes, where the contract of the spec is the end
  of the stream after the frame: the three bytes are taken for a header and a second
  payload is printed.
\<close>

theorem GetLogs_stream_drops_read_counts:
  "spec_nextFrame [1, 0, 0, 0, 0, 0, 0, 4, 65, 66] = Truncated \<and>
   GetLogs_stream [[1, 0, 0, 0, 0, 0, 0, 4, 65, 66]] = [[65, 66, 0, 0]] \<and>
   spec_nextFrame [1, 0, 0, 0, 0, 0, 0, 4, 65, 66, 67, 68] = Frame 1 [65, 66, 67, 68] \<and>
   GetLogs_stream [[1, 0, 0, 0, 0, 0, 0, 4, 65, 66], [67, 68]] =
     [[65, 66, 0, 0], [0, 0, 0, 0]] \<and>
   spec_nextFrame [1, 0, 0, 0, 0, 0, 0, 1, 65] = Frame 1 [65] \<and>
   spec_nextFrame [2, 0, 0] = EndOfStream \<and>
   GetLogs_stream [[1, 0, 0, 0, 0, 0, 0, 1, 65, 2, 0, 0]] = [[65], [0]]"
proof -
  have "spec_nextFrame [1, 0, 0, 0, 0, 0, 0, 4, 65, 66] = Truncated" by code_simp
  moreover have "GetLogs_stream [[1, 0, 0, 0, 0, 0, 0, 4, 65, 66]] = [[65, 66, 0, 0]]"
    by code_simp
  moreover have "spec_nextFrame [1, 0, 0, 0, 0, 0, 0, 4, 65, 66, 67, 68] =
      Frame 1 [65, 66, 67, 68]"
    by code_simp
  moreover have "GetLogs_stream [[1, 0, 0, 0, 0, 0, 0, 4, 65, 66], [67, 68]] =
      [[65, 66, 0, 0], [0, 0, 0, 0]]"
    by code_simp
  moreover have "spec_nextFrame [1, 0, 0, 0, 0, 0, 0, 1, 65] = Frame 1 [65]" by code_simp
  moreover have "spec_nextFrame [2, 0, 0] = EndOfStream" by code_simp
  moreover have "GetLogs_stream [[1, 0, 0, 0, 0, 0, 0, 1, 65, 2, 0, 0]] = [[65], [0]]"
    by code_simp
  ultimately show ?thesis by (intro conjI)
qed

subsection \<open>Port checks\<close>

lemma TestPorts_loop_char:
  "TestPorts_loop listen env services order (add, remove, calls) = ((add', remove', calls'), r) \<Longrightarrow>
   (let todo = filter (to_check env services) order;
        bound = takeWhile (\<lambda>e. listen (address_of env e)) todo
    in if bound = todo
       then r = None \<and> add' = add @ map (\<lambda>e. snd e ! 1) todo \<and>
            calls' = calls @ concat (map (binds env) todo)
       else r = Some Fatal \<and>
            add' = add @ map (\<lambda>e. snd e ! 1) (bound @ [todo ! length bound]) \<and>
            calls' = calls @ concat (map (binds env) bound) @
                       [Listen (address_of env (todo ! length bound))])"
proof (induction order arbitrary: add remove calls)
  case Nil
  then show ?case by simp
next
  case (Cons e order)
  obtain key val where e: "e = (key, val)" by (cases e)
  show ?case
  proof (cases "to_check env services e")
    case False
    with Cons.prems have "\<exists>rm. TestPorts_loop listen env services order (add, rm, calls) =
        ((add', remove', calls'), r)"
      by (auto simp: e to_check_def StringInSlice_def split: if_splits)
    then obtain rm where "TestPorts_loop listen env services order (add, rm, calls) =
        ((add', remove', calls'), r)" ..
    from Cons.IH[OF this] False show ?thesis by simp
  next
    case True
    show ?thesis
    proof (cases "listen (address_of env e)")
      case ok: True
      with True Cons.prems have "TestPorts_loop listen env services order
          (add @ [val ! 1], remove, calls @ binds env e) = ((add', remove', calls'), r)"
        by (auto simp: e to_check_def StringInSlice_def address_of_def binds_def Let_def
            split: if_splits)
      from Cons.IH[OF this] True ok show ?thesis
        by (auto simp: Let_def e)
    next
      case fail: False
      with True Cons.prems show ?thesis
        by (auto simp: e to_check_def StringInSlice_def address_of_def binds_def Let_def
            split: if_splits)
    qed
  qed
qed

lemma takeWhile_stops:
  "takeWhile P xs \<noteq> xs \<Longrightarrow>
   length (takeWhile P xs) < length xs \<and> \<not> P (xs ! length (takeWhile P xs))"
proof -
  assume a: "takeWhile P xs \<noteq> xs"
  have "length (takeWhile P xs) \<le> length xs" by (rule length_takeWhile_le)
  moreover have "length (takeWhile P xs) \<noteq> length xs"
  proof
    assume "length (takeWhile P xs) = length xs"
    with takeWhile_dropWhile_id[of P xs] have "dropWhile P xs = []"
      by (metis append_eq_conv_conj length_0_conv length_drop diff_self_eq_0)
    with takeWhile_dropWhile_id[of P xs] a show False by simp
  qed
  ultimately have "length (takeWhile P xs) < length xs" by simp
  then show ?thesis by (simp add: nth_length_takeWhile)
qed

lemma portChecks_names_distinct: "inj_on (\<lambda>e. snd e ! 1) (set portChecks)"
  by (simp add: portChecks_def)

text \<open>
  C7. Let \<open>order\<close> be the table in any order, and let \<^verbatim>\<open>TestPorts\<close> end with the
  slices \<open>add\<close> and \<open>remove\<close>, the calls \<open>calls\<close> and the outcome \<open>r\<close>. Then the run
  is fatal exactly when some service of the start set whose host is its own name or
  \<^verbatim>\<open>127.0.0.1\<close> has a port that cannot be bound. When it is not fatal, every such
  service, in the order visited, had \<^verbatim>\<open>Listen\<close> called on \<^verbatim>\<open>:port\<close> and \<^verbatim>\<open>Close\<close>
  right after it. A service of the table that is not in the start set, or whose host is
  anything else, never has a bind attempted, and every call made is the \<^verbatim>\<open>Listen\<close> of
  such a check or the \<^verbatim>\<open>Close\<close> after a \<^verbatim>\<open>Listen\<close> that succeeded.
\<close>

theorem TestPorts_checks_local_ports:
  assumes order: "distinct order" "set order = set portChecks"
    and res: "TestPorts listen env services order = ((add, remove, calls), r)"
  shows "(r = Some Fatal \<longleftrightarrow>
            (\<exists>e\<in>set portChecks. to_check env services e \<and> \<not> listen (address_of env e))) \<and>
         (r = None \<or> r = Some Fatal) \<and>
         (r = None \<longrightarrow>
            add = map (\<lambda>e. snd e ! 1) (filter (to_check env services) order) \<and>
            calls = concat (map (binds env) (filter (to_check env services) order))) \<and>
         (\<forall>e\<in>set portChecks. \<not> to_check env services e \<longrightarrow> snd e ! 1 \<notin> set add) \<and>
         (\<forall>c\<in>set calls. \<exists>e\<in>set portChecks. to_check env services e \<and>
            (c = Listen (address_of env e) \<or>
             c = Close (address_of env e) \<and> listen (address_of env e)))"
proof -
  let ?todo = "filter (to_check env services) order"
  let ?ok = "\<lambda>e. listen (address_of env e)"
  let ?bound = "takeWhile ?ok ?todo"
  let ?name = "\<lambda>e :: string \<times> string list. snd e ! 1"
  note char = TestPorts_loop_char[OF res[unfolded TestPorts_def], unfolded Let_def, simplified]
  have todo: "set ?todo = {e \<in> set portChecks. to_check env services e}"
    using order(2) by auto
  have all: "?bound = ?todo \<longleftrightarrow> (\<forall>e\<in>set ?todo. ?ok e)"
    by (rule takeWhile_eq_all_conv)
  have fatal: "r = Some Fatal \<longleftrightarrow> ?bound \<noteq> ?todo" and ret: "r = None \<longleftrightarrow> ?bound = ?todo"
    using char by (auto split: if_splits)
  have c1: "r = Some Fatal \<longleftrightarrow>
      (\<exists>e\<in>set portChecks. to_check env services e \<and> \<not> listen (address_of env e))"
    unfolding fatal all todo by blast
  have c2: "r = None \<or> r = Some Fatal" using fatal ret by blast
  have c3: "r = None \<longrightarrow> add = map ?name ?todo \<and> calls = concat (map (binds env) ?todo)"
    using char ret by (auto split: if_splits)
  have add_sub: "set add \<subseteq> ?name ` set ?todo"
  proof (cases "?bound = ?todo")
    case True
    with char show ?thesis by (auto split: if_splits)
  next
    case False
    define f where "f = ?todo ! length ?bound"
    from takeWhile_stops[OF False, THEN conjunct1]
    have f: "f \<in> set ?todo" unfolding f_def by (rule nth_mem)
    have sub: "set ?bound \<subseteq> set ?todo" by (auto dest: set_takeWhileD)
    from char False have "add = map ?name (?bound @ [f])"
      unfolding f_def by (auto split: if_splits)
    then have "set add = ?name ` set ?bound \<union> {?name f}" by simp
    with f sub show ?thesis by blast
  qed
  have c4: "\<forall>e\<in>set portChecks. \<not> to_check env services e \<longrightarrow> ?name e \<notin> set add"
  proof (intro ballI impI notI)
    fix e assume e: "e \<in> set portChecks" "\<not> to_check env services e" "?name e \<in> set add"
    with add_sub obtain e' where e': "e' \<in> set ?todo" "?name e' = ?name e" by auto
    with todo have "e' \<in> set portChecks" "to_check env services e'" by auto
    with e e'(2) portChecks_names_distinct show False by (auto dest: inj_onD)
  qed
  have calls_sub: "set calls \<subseteq> (\<Union>e\<in>set ?bound. set (binds env e)) \<union>
      {Listen (address_of env e) |e. e \<in> set ?todo}"
  proof (cases "?bound = ?todo")
    case True
    with ret c3 have "calls = concat (map (binds env) ?todo)" by blast
    then have "calls = concat (map (binds env) ?bound)" by (simp only: True)
    then show ?thesis by auto
  next
    case False
    define f where "f = ?todo ! length ?bound"
    from takeWhile_stops[OF False, THEN conjunct1]
    have f: "f \<in> set ?todo" unfolding f_def by (rule nth_mem)
    from char False have "calls = concat (map (binds env) ?bound) @ [Listen (address_of env f)]"
      unfolding f_def by (auto split: if_splits)
    then have "set calls = (\<Union>e\<in>set ?bound. set (binds env e)) \<union> {Listen (address_of env f)}"
      by simp
    with f show ?thesis by blast
  qed
  have c5: "\<forall>c\<in>set calls. \<exists>e\<in>set portChecks. to_check env services e \<and>
            (c = Listen (address_of env e) \<or>
             c = Close (address_of env e) \<and> listen (address_of env e))"
  proof
    fix c assume "c \<in> set calls"
    with calls_sub consider e where "e \<in> set ?bound" "c \<in> set (binds env e)"
      | e where "e \<in> set ?todo" "c = Listen (address_of env e)" by blast
    then show "\<exists>e\<in>set portChecks. to_check env services e \<and>
            (c = Listen (address_of env e) \<or>
             c = Close (address_of env e) \<and> listen (address_of env e))"
    proof cases
      case 1
      then have "e \<in> set ?todo" "listen (address_of env e)"
        by (auto dest: set_takeWhileD)
      with 1(2) todo show ?thesis by (auto simp: binds_def)
    next
      case 2
      with todo show ?thesis by auto
    qed
  qed
  from c1 c2 c3 c4 c5 show ?thesis by blast
qed





theorem TestPorts_checks_local_ports_witness:
  "distinct portChecks \<and>
   TestPorts (\<lambda>a. a \<noteq> '':5432'')
     \<lparr>GetString = (\<lambda>k. if k = ''NGINX_HOST'' then ''mythic_nginx''
                         else if k = ''POSTGRES_HOST'' then ''10.0.0.5'' else ''127.0.0.1''),
      GetInt = (\<lambda>k. if k = ''NGINX_PORT'' then 7443
                      else if k = ''POSTGRES_PORT'' then 5432 else 17443)\<rparr>
     [''mythic_nginx'', ''mythic_postgres'', ''apollo''] portChecks =
     (([''mythic_nginx''], [''mythic_postgres''], [Listen '':7443'', Close '':7443'']), None) \<and>
   \<not> (\<exists>e\<in>set portChecks.
         to_check
     \<lparr>GetString = (\<lambda>k. if k = ''NGINX_HOST'' then ''mythic_nginx''
                         else if k = ''POSTGRES_HOST'' then ''10.0.0.5'' else ''127.0.0.1''),
      GetInt = (\<lambda>k. if k = ''NGINX_PORT'' then 7443
                      else if k = ''POSTGRES_PORT'' then 5432 else 17443)\<rparr>
     [''mythic_nginx'', ''mythic_postgres'', ''apollo''] e \<and>
         \<not> (\<lambda>a. a \<noteq> '':5432'') (address_of
     \<lparr>GetString = (\<lambda>k. if k = ''NGINX_HOST'' then ''mythic_nginx''
                         else if k = ''POSTGRES_HOST'' then ''10.0.0.5'' else ''127.0.0.1''),
      GetInt = (\<lambda>k. if k = ''NGINX_PORT'' then 7443
                      else if k = ''POSTGRES_PORT'' then 5432 else 17443)\<rparr> e))"
proof -
  let ?env = "\<lparr>GetString = (\<lambda>k. if k = ''NGINX_HOST'' then ''mythic_nginx''
                         else if k = ''POSTGRES_HOST'' then ''10.0.0.5'' else ''127.0.0.1''),
      GetInt = (\<lambda>k. if k = ''NGINX_PORT'' then 7443
                      else if k = ''POSTGRES_PORT'' then 5432 else 17443)\<rparr>"
  have h1: "distinct portChecks" by (simp add: portChecks_def)
  have port: "Itoa 7443 = ''7443''" by (simp add: Itoa_def decimal.simps digit_char_def)
  have h2: "TestPorts (\<lambda>a. a \<noteq> '':5432'') ?env [''mythic_nginx'', ''mythic_postgres'', ''apollo''] portChecks =
     (([''mythic_nginx''], [''mythic_postgres''], [Listen '':7443'', Close '':7443'']), None)"
    by (simp add: TestPorts_def portChecks_def StringInSlice_def port Let_def)
  from TestPorts_checks_local_ports[OF h1 refl h2, THEN conjunct1]
  have "\<not> (\<exists>e\<in>set portChecks. to_check ?env [''mythic_nginx'', ''mythic_postgres'', ''apollo''] e \<and> \<not> (\<lambda>a. a \<noteq> '':5432'') (address_of ?env e))"
    by simp
  with h1 h2 show ?thesis by (intro conjI)
qed


subsection \<open>The port column\<close>







subsection \<open>Third-party names\<close>

text \<open>
  C6. Whatever the file holds, no name returned by
  \<^verbatim>\<open>GetAllInstalled3rdPartyServiceNames\<close> is in \<^verbatim>\<open>MythicPossibleServices\<close>.
\<close>

theorem third_party_disjoint_from_core:
  "set (fst (GetAllInstalled3rdPartyServiceNames possible f)) \<inter> set possible = {}"
  by (auto simp: GetAllInstalled3rdPartyServiceNames_def StringInSlice_def
      split: sum.splits option.splits)

subsection \<open>Writing the document\<close>

text \<open>
  C4. Whatever mapping is passed to \<^verbatim>\<open>setDockerComposeDefaultsAndWrite\<close>, the mapping
  that is serialized has \<open>version\<close> set to \<open>2.4\<close>, has no top-level \<open>networks\<close> key,
  and agrees with the argument on every other top-level key. When the write succeeds
  that mapping is the new content of the file and nil is returned; when it fails the
  error is returned.
\<close>

theorem persist_version_and_networks:
  "map_of (compose_content curConfig) ''version'' = Some (YStr ''2.4'') \<and>
   map_of (compose_content curConfig) ''networks'' = None \<and>
   map_of (compose_content curConfig) =
     (map_of curConfig)(''version'' \<mapsto> YStr ''2.4'', ''networks'' := None) \<and>
   setDockerComposeDefaultsAndWrite True f curConfig =
     (None, Document (compose_content curConfig)) \<and>
   fst (setDockerComposeDefaultsAndWrite False f curConfig) = Some WriteError"
  by (simp add: compose_content_def setDockerComposeDefaultsAndWrite_def
      AList.delete_conv' AList.update_conv')

subsection \<open>Choosing the compose tool\<close>

text \<open>
  C9. \<^verbatim>\<open>runDockerCompose\<close> looks for \<^verbatim>\<open>docker-compose\<close> first and, when it is found,
  runs it with the arguments as given, whether or not \<^verbatim>\<open>docker\<close> is installed. When
  it is not found, \<^verbatim>\<open>docker\<close> is looked up and run with \<^verbatim>\<open>compose\<close> in front of the
  arguments. When neither is found the call is fatal. Every command that is run is one
  of these two.
\<close>

theorem runDockerCompose_tool_selection:
  "(\<forall>p. LookPath env ''docker-compose'' = Some p \<longrightarrow>
        select_compose_tool (LookPath env) args = Inr (p, args)) \<and>
   (\<forall>p. LookPath env ''docker-compose'' = None \<and> LookPath env ''docker'' = Some p \<longrightarrow>
        select_compose_tool (LookPath env) args = Inr (p, ''compose'' # args)) \<and>
   (LookPath env ''docker-compose'' = None \<and> LookPath env ''docker'' = None \<longrightarrow>
        runDockerCompose env args = Inl Fatal) \<and>
   (\<forall>c e. runDockerCompose env args = Inr (c, e) \<longrightarrow>
        select_compose_tool (LookPath env) args = Inr (Path c, Args c) \<and>
        (LookPath env ''docker-compose'' = Some (Path c) \<and> Args c = args \<or>
         LookPath env ''docker-compose'' = None \<and> LookPath env ''docker'' = Some (Path c) \<and>
         Args c = ''compose'' # args)) \<and>
   (\<forall>p d. select_compose_tool (LookPath env) args = Inr p \<and> Executable_dir env = Some d \<and>
        pty_Start_ok env \<longrightarrow>
        runDockerCompose env args = Inr (\<lparr>Path = fst p, Args = snd p, Dir = d\<rparr>, None))"
  by (auto simp: select_compose_tool_def runDockerCompose_def Let_def
      split: option.splits if_splits)

theorem runDockerCompose_tool_selection_witness:
  "runDockerCompose
     \<lparr>LookPath = (\<lambda>s. if s = ''docker'' then Some ''/usr/bin/docker'' else None),
      Executable_dir = Some ''/opt/mythic'', pty_Start_ok = True, StdoutPipe_ok = True,
      StderrPipe_ok = True, Start_ok = True, Wait_ok = True\<rparr> [''up'', ''-d'']
   = Inr (\<lparr>Path = ''/usr/bin/docker'', Args = [''compose'', ''up'', ''-d''],
           Dir = ''/opt/mythic''\<rparr>, None)"
  using runDockerCompose_tool_selection
    [of "\<lparr>LookPath = (\<lambda>s. if s = ''docker'' then Some ''/usr/bin/docker'' else None),
      Executable_dir = Some ''/opt/mythic'', pty_Start_ok = True, StdoutPipe_ok = True,
      StderrPipe_ok = True, Start_ok = True, Wait_ok = True\<rparr>" "[''up'', ''-d'']"]
  by simp

end
